theory Spec2Isabelle
  imports Complex_Main "HOL-Library.AList"
begin

section \<open>Attendance dashboard (app.js): the aggregation engine\<close>

text \<open>
  The development embeds the pure core of \<^verbatim>\<open>app.js\<close>: \<^verbatim>\<open>parseCSV\<close>,
  \<^verbatim>\<open>buildStudentsMap\<close> and \<^verbatim>\<open>computeTodayCounts\<close>. Fetching and DOM rendering are
  not modelled.

  Conventions of the embedding.
  \<^item> A JavaScript string is a \<open>string\<close>; a \<open>char\<close> stands for one UTF-16 code unit in
    the range U+0000..U+00FF, so the strings covered are the Latin-1 ones. On that range
    \<^verbatim>\<open>trim\<close> and \<^verbatim>\<open>toLowerCase\<close> are written out exactly.
  \<^item> The counters are JavaScript numbers holding integers; they are \<open>int\<close>. The quotient
    \<^verbatim>\<open>present / classesHeld\<close> is a \<open>rat\<close>: the exact quotient. The double that
    JavaScript computes compares with 0.75 as the exact quotient does, as long as the
    counters stay below \<open>2 ^ 52\<close> (0.75 is a double, and rounding is monotone).
  \<^item> A plain object used as a dictionary is an association list of its own properties in
    insertion order (\<open>AList.update\<close> replaces in place or appends). The order of
    enumeration plays no role in any result below.
  \<^item> A property that has not been assigned yet (\<^verbatim>\<open>percent\<close>, \<^verbatim>\<open>status\<close>) is \<open>None\<close>.
  \<^item> A \<^verbatim>\<open>TypeError\<close> thrown by the code is the value \<open>Inl TypeError\<close>.
  \<^item> A call runs in an environment where \<^verbatim>\<open>Object.prototype\<close> has its standard
    properties and no enumerable one.
\<close>

subsection \<open>Strings\<close>

text \<open>The code units that \<^verbatim>\<open>String.prototype.trim\<close> strips (WhiteSpace and
  LineTerminator), as far as they lie in U+0000..U+00FF: TAB, LF, VT, FF, CR, SP, NBSP.\<close>

definition isWhiteSpace :: "char \<Rightarrow> bool" where
  "isWhiteSpace c =
     (c = CHR 0x09 \<or> c = CHR 0x0A \<or> c = CHR 0x0B \<or> c = CHR 0x0C \<or> c = CHR 0x0D \<or>
      c = CHR 0x20 \<or> c = CHR 0xA0)"

definition trim :: "string \<Rightarrow> string" where
  "trim s = rev (dropWhile isWhiteSpace (rev (dropWhile isWhiteSpace s)))"

text \<open>\<^verbatim>\<open>toLowerCase\<close> on U+0000..U+00FF: A..Z and the capital letters U+00C0..U+00DE
  (without the multiplication sign U+00D7) move up by 0x20.\<close>

definition toLowerCaseChar :: "char \<Rightarrow> char" where
  "toLowerCaseChar c =
     (let n = (of_char c :: nat) in
      if (65 \<le> n \<and> n \<le> 90) \<or> (192 \<le> n \<and> n \<le> 222 \<and> n \<noteq> 215)
      then char_of (n + 32) else c)"

definition toLowerCase :: "string \<Rightarrow> string" where
  "toLowerCase s = map toLowerCaseChar s"

text \<open>\<^verbatim>\<open>text.split(sep)\<close> for a one-character separator: always at least one piece.\<close>

fun splitStr :: "char \<Rightarrow> string \<Rightarrow> string list" where
  "splitStr sep [] = [[]]"
| "splitStr sep (x # xs) =
     (if x = sep then [] # splitStr sep xs
      else (case splitStr sep xs of l # ls \<Rightarrow> (x # l) # ls | [] \<Rightarrow> [[x]]))"

text \<open>\<^verbatim>\<open>fields.join(",")\<close>.\<close>

fun joinComma :: "string list \<Rightarrow> string" where
  "joinComma [] = []"
| "joinComma [f] = f"
| "joinComma (f # g # fs) = f @ CHR '','' # joinComma (g # fs)"

subsection \<open>parseCSV\<close>

text \<open>The inner loop of \<^verbatim>\<open>parseCSV\<close> (lines 27 to 43), on the characters still to be
  read: \<open>cur\<close>, \<open>inQuotes\<close> and \<open>row\<close> are the loop's variables. The escaped quote
  consumes two characters (\<^verbatim>\<open>j++; continue\<close>); at the end of the line the current
  field is pushed.\<close>

fun scanLine :: "string \<Rightarrow> string \<Rightarrow> bool \<Rightarrow> string list \<Rightarrow> string list" where
  "scanLine [] cur inQuotes row = row @ [cur]"
| "scanLine (ch # rest) cur inQuotes row =
     (if ch = CHR 0x22 then
        (if inQuotes \<and> rest \<noteq> [] \<and> hd rest = CHR 0x22
         then scanLine (tl rest) (cur @ [CHR 0x22]) inQuotes row
         else scanLine rest cur (\<not> inQuotes) row)
      else if ch = CHR '','' \<and> \<not> inQuotes then scanLine rest [] inQuotes (row @ [cur])
      else scanLine rest (cur @ [ch]) inQuotes row)"

text \<open>The body of the outer loop (lines 22 to 44): the line is trimmed, and the trimmed
  line is what is scanned.\<close>

definition parseLine :: "string \<Rightarrow> string list" where
  "parseLine l = (let line = trim l in if line = [] then [] else scanLine line [] False [])"

definition stripCR :: "string \<Rightarrow> string" where
  "stripCR text = filter (\<lambda>c. c \<noteq> CHR 0x0D) text"

definition parseCSV :: "string \<Rightarrow> string list list" where
  "parseCSV text = map parseLine (splitStr CHR 0x0A (stripCR text))"

subsection \<open>The data model of buildStudentsMap\<close>

datatype error = TypeError

text \<open>The result of \<^verbatim>\<open>computeTodayCounts\<close>. Its fields \<open>present\<close> and \<open>absent\<close>
  are written \<open>today_counts.present\<close> and \<open>today_counts.absent\<close> below: the short names
  are those of the counters of a subject record and of the totals.\<close>

record today_counts =
  present :: int
  absent :: int
  unknown :: int

record counts =
  classesHeld :: int
  present :: int
  absent :: int

record subject_record = counts +
  presentByDate :: "int list"

record totals = counts +
  percent :: "rat option"
  status :: "string option"

record student =
  name :: string
  roll :: string
  subjects :: "(string \<times> subject_record) list"
  totals :: totals

record sheet =
  subject :: string
  rows :: "string list list"

type_synonym students_map = "(string \<times> student) list"

record build_result =
  map_obj :: students_map
  subjectLastColIndex :: "(string \<times> int) list"

definition nameIdx :: nat where "nameIdx = 1"
definition rollIdx :: nat where "rollIdx = 2"
definition dateStart :: nat where "dateStart = 3"

text \<open>\<^verbatim>\<open>row[i] || ""\<close>: a missing cell reads as the empty string.\<close>

definition cell :: "string list \<Rightarrow> nat \<Rightarrow> string" where
  "cell row i = (if i < length row then row ! i else [])"

text \<open>The own property names of \<^verbatim>\<open>Object.prototype\<close>. The map is created as \<^verbatim>\<open>{}\<close>,
  so \<^verbatim>\<open>map[roll]\<close> for one of these names, when the map has no own property of that
  name, is an inherited value, which is truthy.\<close>

definition objectPrototypeKeys :: "string list" where
  "objectPrototypeKeys =
     [''constructor'', ''__defineGetter__'', ''__defineSetter__'', ''hasOwnProperty'',
      ''__lookupGetter__'', ''__lookupSetter__'', ''isPrototypeOf'',
      ''propertyIsEnumerable'', ''toString'', ''valueOf'', ''__proto__'',
      ''toLocaleString'']"

text \<open>\<^verbatim>\<open>obj[k] = v\<close> on a plain object, as far as the own properties go: the name
  \<^verbatim>\<open>__proto__\<close> is the prototype accessor, and assigning to it creates no own
  property. (The prototype link itself is not part of the model.)\<close>

definition objSet :: "string \<Rightarrow> 'a \<Rightarrow> (string \<times> 'a) list \<Rightarrow> (string \<times> 'a) list" where
  "objSet k v obj = (if k = ''__proto__'' then obj else AList.update k v obj)"

text \<open>One round of the loop over the date columns (lines 115 to 118); the state is
  \<open>(presentTotal, presentByDate)\<close>.\<close>

definition markCell :: "string list \<Rightarrow> nat \<Rightarrow> int \<times> int list \<Rightarrow> int \<times> int list" where
  "markCell row c acc =
     (let val = trim (cell row c);
          isPresent = (toLowerCase val = ''p'')
      in (if isPresent then fst acc + 1 else fst acc,
          snd acc @ [if isPresent then 1 else 0]))"

definition scanDates :: "string list \<Rightarrow> string list \<Rightarrow> int \<times> int list" where
  "scanDates header row = fold (markCell row) [dateStart..<length header] (0, [])"

text \<open>A loop whose body may throw.\<close>

fun foldE :: "('s \<Rightarrow> 'a \<Rightarrow> error + 's) \<Rightarrow> 'a list \<Rightarrow> 's \<Rightarrow> error + 's" where
  "foldE f [] s = Inr s"
| "foldE f (x # xs) s = (case f s x of Inl e \<Rightarrow> Inl e | Inr s' \<Rightarrow> foldE f xs s')"

text \<open>Lines 104 to 108, the student that the rest of the loop body works on. When
  \<^verbatim>\<open>map[roll]\<close> is an inherited value, it is truthy and it is not a student: line 105
  creates none, line 107 at most assigns to the inherited object, and line 121 then
  assigns to a property of \<^verbatim>\<open>map[roll].subjects\<close>, which is \<^verbatim>\<open>undefined\<close>: a
  \<^verbatim>\<open>TypeError\<close>.\<close>

definition newStudent :: "string \<Rightarrow> string \<Rightarrow> student" where
  "newStudent nm rl =
     \<lparr>name = (if nm = [] then ''Unknown'' else nm), roll = rl, subjects = [],
      totals = \<lparr>classesHeld = 0, present = 0, absent = 0, percent = None, status = None\<rparr>\<rparr>"

definition lookupOrCreate :: "students_map \<Rightarrow> string \<Rightarrow> string \<Rightarrow> error + student" where
  "lookupOrCreate m rl nm =
     (case map_of m rl of
        None \<Rightarrow> if rl \<in> set objectPrototypeKeys then Inl TypeError else Inr (newStudent nm rl)
      | Some st \<Rightarrow> if name st = [] \<and> nm \<noteq> [] then Inr (st\<lparr>name := nm\<rparr>) else Inr st)"

text \<open>Lines 110 to 129: the subject record of the row is stored under the subject, and
  added to the totals.\<close>

definition addSubject :: "string \<Rightarrow> string list \<Rightarrow> int \<Rightarrow> string list \<Rightarrow> student \<Rightarrow> student" where
  "addSubject subj header held row st =
     (let subjClassesHeld = held;
          (presentTotal, byDate) = scanDates header row;
          subjAbsent = subjClassesHeld - presentTotal;
          t = totals st
      in st\<lparr>subjects :=
              objSet subj
                \<lparr>classesHeld = subjClassesHeld, present = presentTotal,
                 absent = subjAbsent, presentByDate = byDate\<rparr>
                (subjects st),
            totals :=
              t\<lparr>classesHeld := classesHeld t + subjClassesHeld,
                present := present t + presentTotal,
                absent := absent t + subjAbsent\<rparr>\<rparr>)"

text \<open>The body of the loop over the data rows (lines 100 to 129); \<open>held\<close> is the
  \<^verbatim>\<open>classesHeld\<close> of the sheet. A row without roll is skipped.\<close>

definition processRow ::
  "string \<Rightarrow> string list \<Rightarrow> int \<Rightarrow> students_map \<Rightarrow> string list \<Rightarrow> error + students_map" where
  "processRow subj header held m row =
     (let nm = trim (cell row nameIdx);
          rl = trim (cell row rollIdx)
      in if rl = [] then Inr m
         else
           (case lookupOrCreate m rl nm of
              Inl e \<Rightarrow> Inl e
            | Inr st \<Rightarrow> Inr (AList.update rl (addSubject subj header held row st) m)))"

text \<open>The body of the loop over the sheets (lines 89 to 130).\<close>

definition processSheet :: "build_result \<Rightarrow> sheet \<Rightarrow> error + build_result" where
  "processSheet st sh =
     (if length (rows sh) < 1 then Inr st
      else
        (let header = hd (rows sh);
             held = max 0 (int (length header) - int dateStart);
             idx = objSet (subject sh) (int (length header) - 1) (subjectLastColIndex st)
         in (case foldE (processRow (subject sh) header held) (tl (rows sh)) (map_obj st) of
               Inl e \<Rightarrow> Inl e
             | Inr m \<Rightarrow> Inr \<lparr>map_obj = m, subjectLastColIndex = idx\<rparr>)))"

text \<open>Lines 134 to 138.\<close>

definition computeStatus :: "totals \<Rightarrow> totals" where
  "computeStatus t =
     (let p = (if classesHeld t > 0 then of_int (present t) / of_int (classesHeld t) else 0)
      in t\<lparr>percent := Some p,
           status := Some (if p \<ge> 0.75 then ''Good'' else ''Needs Improvement'')\<rparr>)"

definition finalize :: "students_map \<Rightarrow> students_map" where
  "finalize m = map (\<lambda>(rl, st). (rl, st\<lparr>totals := computeStatus (totals st)\<rparr>)) m"

definition buildStudentsMap :: "sheet list \<Rightarrow> error + build_result" where
  "buildStudentsMap sheets =
     (case foldE processSheet sheets \<lparr>map_obj = [], subjectLastColIndex = []\<rparr> of
        Inl e \<Rightarrow> Inl e
      | Inr res \<Rightarrow> Inr (res\<lparr>map_obj := finalize (map_obj res)\<rparr>))"

subsection \<open>computeTodayCounts\<close>

text \<open>The loop over one student's subjects (lines 154 to 163); the state is
  \<open>(hasAnySubject, anyPresent, anySubjectWithDate)\<close>. The \<^verbatim>\<open>break\<close> leaves the loop
  at the first subject whose last entry is 1.\<close>

fun scanSubjects ::
  "(string \<times> subject_record) list \<Rightarrow> bool \<times> bool \<times> bool \<Rightarrow> bool \<times> bool \<times> bool" where
  "scanSubjects [] acc = acc"
| "scanSubjects ((subj, s) # rest) (hasAnySubject, anyPresent, anySubjectWithDate) =
     (let lastIndex = int (length (presentByDate s)) - 1 in
      if lastIndex \<ge> 0 then
        (let val = presentByDate s ! nat lastIndex in
         if val = 1 then (True, True, True)
         else scanSubjects rest (True, anyPresent, True))
      else scanSubjects rest (hasAnySubject, anyPresent, anySubjectWithDate))"

text \<open>The body of the loop over the students (lines 148 to 166).\<close>

definition countStudent :: "student \<Rightarrow> today_counts \<Rightarrow> today_counts" where
  "countStudent st c =
     (case scanSubjects (subjects st) (False, False, False) of
        (hasAnySubject, anyPresent, anySubjectWithDate) \<Rightarrow>
          if \<not> anySubjectWithDate then c\<lparr>unknown := unknown c + 1\<rparr>
          else if anyPresent then c\<lparr>today_counts.present := today_counts.present c + 1\<rparr>
          else c\<lparr>today_counts.absent := today_counts.absent c + 1\<rparr>)"

definition computeTodayCounts :: "students_map \<Rightarrow> (string \<times> int) list \<Rightarrow> today_counts" where
  "computeTodayCounts m subjectLastColIndex' =
     fold countStudent (map snd m)
       \<lparr>today_counts.present = 0, today_counts.absent = 0, unknown = 0\<rparr>"

subsection \<open>The properties, as the specification words them\<close>

text \<open>The fields of a line as the character sequences between its commas.\<close>

definition fieldsBetweenSeparators :: "string \<Rightarrow> string list" where
  "fieldsBetweenSeparators line = splitStr CHR '','' line"

text \<open>A subject record is consistent when present and absent add up to the classes held
  and there is one entry per class held.\<close>

definition recordConsistent :: "subject_record \<Rightarrow> bool" where
  "recordConsistent s =
     (present s + absent s = classesHeld s \<and> int (length (presentByDate s)) = classesHeld s)"

text \<open>A student is consistent when the totals add up and every record is consistent.\<close>

definition studentConsistent :: "student \<Rightarrow> bool" where
  "studentConsistent st =
     (present (totals st) + absent (totals st) = classesHeld (totals st) \<and>
      (\<forall>(subj, s)\<in>set (subjects st). recordConsistent s))"

text \<open>The sums of a field over the records of a subjects mapping.\<close>

definition sumOver :: "(subject_record \<Rightarrow> int) \<Rightarrow> student \<Rightarrow> int" where
  "sumOver f st = sum_list (map (\<lambda>(subj, s). f s) (subjects st))"

definition totalsAreSums :: "student \<Rightarrow> bool" where
  "totalsAreSums st =
     (classesHeld (totals st) = sumOver classesHeld st \<and>
      present (totals st) = sumOver present st \<and>
      absent (totals st) = sumOver absent st)"

text \<open>The (subject, roll) pairs of the data rows that the builder processes, in the order
  it processes them: the rows after the header whose roll is not empty.\<close>

definition keysOfRows :: "string \<Rightarrow> string list list \<Rightarrow> (string \<times> string) list" where
  "keysOfRows subj rs =
     map (\<lambda>row. (subj, trim (cell row rollIdx)))
       (filter (\<lambda>row. trim (cell row rollIdx) \<noteq> []) rs)"

definition rowKeys :: "sheet \<Rightarrow> (string \<times> string) list" where
  "rowKeys sh = keysOfRows (subject sh) (tl (rows sh))"

definition processedKeys :: "sheet list \<Rightarrow> (string \<times> string) list" where
  "processedKeys sheets = concat (map rowKeys sheets)"

text \<open>The invariant of the loops behind the sums: every student's totals are the sums
  over the subjects mapping, and every subject of the mapping belongs to a row already
  processed.\<close>

definition sumsInv :: "(string \<times> string) list \<Rightarrow> students_map \<Rightarrow> bool" where
  "sumsInv seen m =
     (\<forall>(r, st)\<in>set m. totalsAreSums st \<and> (\<forall>k\<in>fst ` set (subjects st). (k, r) \<in> set seen))"

text \<open>The three classes of the today detector.\<close>

definition lastIsOne :: "subject_record \<Rightarrow> bool" where
  "lastIsOne s = (presentByDate s \<noteq> [] \<and> last (presentByDate s) = 1)"

definition presentToday :: "student \<Rightarrow> bool" where
  "presentToday st = list_ex (\<lambda>(subj, s). lastIsOne s) (subjects st)"

definition absentToday :: "student \<Rightarrow> bool" where
  "absentToday st =
     (\<not> presentToday st \<and> list_ex (\<lambda>(subj, s). presentByDate s \<noteq> []) (subjects st))"

definition unknownToday :: "student \<Rightarrow> bool" where
  "unknownToday st = list_all (\<lambda>(subj, s). presentByDate s = []) (subjects st)"

definition countWhere :: "(student \<Rightarrow> bool) \<Rightarrow> students_map \<Rightarrow> int" where
  "countWhere P m = int (length (filter P (map snd m)))"


section \<open>The parser\<close>

lemma splitStr_not_Nil: "splitStr sep s \<noteq> []"
  by (induction s) (auto split: list.splits)

lemma splitStr_pieces: "l \<in> set (splitStr sep s) \<Longrightarrow> set l \<subseteq> set s"
proof (induction s arbitrary: l)
  case Nil
  then show ?case by simp
next
  case (Cons x xs)
  show ?case
  proof (cases "x = sep")
    case True
    with Cons show ?thesis by auto
  next
    case False
    obtain p ps where sp: "splitStr sep xs = p # ps"
      using splitStr_not_Nil [of sep xs] by (cases "splitStr sep xs") auto
    with False Cons.prems have "l = x # p \<or> l \<in> set ps" by auto
    then show ?thesis
      using Cons.IH [of p] Cons.IH [of l] sp by auto
  qed
qed

lemma splitStr_no_sep: "sep \<notin> set s \<Longrightarrow> splitStr sep s = [s]"
  by (induction s) auto

lemma splitStr_append_sep:
  "sep \<notin> set f \<Longrightarrow> splitStr sep (f @ sep # s) = f # splitStr sep s"
  by (induction f) auto

lemma splitStr_joinComma:
  "fs \<noteq> [] \<Longrightarrow> \<forall>f\<in>set fs. CHR '','' \<notin> set f \<Longrightarrow>
   splitStr CHR '','' (joinComma fs) = fs"
  by (induction fs rule: joinComma.induct) (auto simp: splitStr_no_sep splitStr_append_sep)

lemma set_joinComma: "set (joinComma fs) \<subseteq> insert CHR '','' (\<Union>f\<in>set fs. set f)"
  by (induction fs rule: joinComma.induct) auto

lemma set_trim: "set (trim l) \<subseteq> set l"
  by (auto simp: trim_def dest!: set_dropWhileD)

text \<open>Outside quotes, and on a line that has no double quote, the scanner cuts the line
  at its commas; the field under construction is continued by the first piece.\<close>

lemma scanLine_unquoted:
  "CHR 0x22 \<notin> set s \<Longrightarrow>
   scanLine s cur False row =
     row @ (cur @ hd (splitStr CHR '','' s)) # tl (splitStr CHR '','' s)"
proof (induction s arbitrary: cur row)
  case Nil
  then show ?case by simp
next
  case (Cons ch rest)
  obtain p ps where sp: "splitStr CHR '','' rest = p # ps"
    using splitStr_not_Nil [of "CHR '',''" rest] by (cases "splitStr CHR '','' rest") auto
  from Cons.prems have nq: "ch \<noteq> CHR 0x22" "CHR 0x22 \<notin> set rest" by auto
  show ?case
  proof (cases "ch = CHR '',''")
    case True
    then show ?thesis using Cons.IH [OF nq(2), of "[]" "row @ [cur]"] sp by simp
  next
    case False
    then show ?thesis using nq Cons.IH [OF nq(2), of "cur @ [ch]" row] sp by simp
  qed
qed

lemma parseLine_unquoted:
  assumes "CHR 0x22 \<notin> set l"
  shows "parseLine l = (if trim l = [] then [] else fieldsBetweenSeparators (trim l))"
proof -
  from assms set_trim [of l] have "CHR 0x22 \<notin> set (trim l)" by auto
  then show ?thesis
    using splitStr_not_Nil [of "CHR '',''" "trim l"]
    by (simp add: parseLine_def Let_def fieldsBetweenSeparators_def scanLine_unquoted)
qed





text \<open>
  Claim C8, as amended. For a non-empty sequence of fields without comma, double quote,
  carriage return and line feed, whose comma-join is not empty and neither starts nor
  ends with white space, \<^verbatim>\<open>parseCSV\<close> of the join is the one row of these fields.
\<close>

theorem parseCSV_joinComma_roundtrip:
  assumes ne: "fs \<noteq> []"
    and plain: "\<forall>f\<in>set fs. \<forall>c\<in>set f.
        c \<noteq> CHR '','' \<and> c \<noteq> CHR 0x22 \<and> c \<noteq> CHR 0x0D \<and> c \<noteq> CHR 0x0A"
    and trimmed: "trim (joinComma fs) = joinComma fs"
    and nonblank: "joinComma fs \<noteq> []"
  shows "parseCSV (joinComma fs) = [fs]"
proof -
  let ?t = "joinComma fs"
  have sub: "set ?t \<subseteq> insert CHR '','' (\<Union>f\<in>set fs. set f)" by (rule set_joinComma)
  have nocr: "CHR 0x0D \<notin> set ?t" and nolf: "CHR 0x0A \<notin> set ?t" and noq: "CHR 0x22 \<notin> set ?t"
    using sub plain by auto
  have "stripCR ?t = ?t" using nocr by (auto simp: stripCR_def filter_id_conv)
  moreover have "splitStr CHR 0x0A ?t = [?t]" using nolf by (rule splitStr_no_sep)
  moreover have "splitStr CHR '','' ?t = fs"
    using ne plain by (intro splitStr_joinComma) auto
  ultimately show ?thesis
    using noq trimmed nonblank
    by (simp add: parseCSV_def parseLine_unquoted fieldsBetweenSeparators_def)
qed

theorem parseCSV_joinComma_roundtrip_witness:
  "parseCSV (joinComma [''a b'', '' c'', ''d'']) = [[''a b'', '' c'', ''d'']]"
  using parseCSV_joinComma_roundtrip [of "[''a b'', '' c'', ''d'']"]
  by (simp add: trim_def isWhiteSpace_def)

text \<open>Claim C8 as stated fails on fields without comma and double quote: white space at
  the start of the first field is lost, a single empty field yields a row of no fields,
  and a line feed inside a field starts a second row.\<close>

theorem parseCSV_joinComma_not_roundtrip:
  "parseCSV (joinComma ['' a'', ''b'']) = [[''a'', ''b'']] \<and>
   parseCSV (joinComma ['''']) = [[]] \<and>
   parseCSV (joinComma [''a'', [CHR ''b'', CHR 0x0A, CHR ''c'']]) = [[''a'', ''b''], [''c'']]"
  by (simp add: parseCSV_def parseLine_def trim_def isWhiteSpace_def stripCR_def)


section \<open>The students map\<close>

subsection \<open>Loops that may throw\<close>

lemma foldE_append:
  "foldE f (xs @ ys) s = (case foldE f xs s of Inl e \<Rightarrow> Inl e | Inr s' \<Rightarrow> foldE f ys s')"
  by (induction xs arbitrary: s) (auto split: sum.splits)

lemma foldE_invariant:
  assumes step: "\<And>s x s'. I s \<Longrightarrow> x \<in> set xs \<Longrightarrow> f s x = Inr s' \<Longrightarrow> I s'"
    and init: "I s" and run: "foldE f xs s = Inr s'"
  shows "I s'"
  using assms
proof (induction xs arbitrary: s)
  case Nil
  then show ?case by simp
next
  case (Cons x xs)
  from Cons.prems(3) obtain s1 where s1: "f s x = Inr s1" and rest: "foldE f xs s1 = Inr s'"
    by (auto split: sum.splits)
  have s1_ok: "I s1" by (rule Cons.prems(1) [OF Cons.prems(2) _ s1]) simp
  show ?case
  proof (rule Cons.IH [OF _ s1_ok rest])
    fix t y t'
    assume "I t" and "y \<in> set xs" and "f t y = Inr t'"
    then show "I t'" by (intro Cons.prems(1) [of t y t']) simp_all
  qed
qed

subsection \<open>When the builder returns\<close>

text \<open>The builder returns a map when no roll of a data row is the name of an inherited
  property; a row with such a roll throws.\<close>

lemma processRow_returns:
  assumes "trim (cell row rollIdx) \<notin> set objectPrototypeKeys"
  shows "\<exists>m'. processRow subj header held m row = Inr m'"
  using assms
  by (simp add: processRow_def lookupOrCreate_def Let_def split: option.splits)

lemma rows_return:
  assumes "\<forall>row\<in>set rs. trim (cell row rollIdx) \<notin> set objectPrototypeKeys"
  shows "\<exists>m'. foldE (processRow subj header held) rs m = Inr m'"
  using assms
proof (induction rs arbitrary: m)
  case Nil
  then show ?case by simp
next
  case (Cons row rs)
  then obtain m1 where "processRow subj header held m row = Inr m1"
    using processRow_returns [of row subj header held m] by auto
  with Cons show ?case by simp
qed

lemma processSheet_returns:
  assumes "\<forall>row\<in>set (tl (rows sh)). trim (cell row rollIdx) \<notin> set objectPrototypeKeys"
  shows "\<exists>b'. processSheet b sh = Inr b'"
proof -
  obtain m' where "foldE (processRow (subject sh) (hd (rows sh))
      (max 0 (int (length (hd (rows sh))) - int dateStart))) (tl (rows sh)) (map_obj b) = Inr m'"
    using rows_return [OF assms] by blast
  then show ?thesis by (simp add: processSheet_def Let_def)
qed

lemma sheets_return:
  assumes "\<forall>sh\<in>set sheets. \<forall>row\<in>set (tl (rows sh)).
      trim (cell row rollIdx) \<notin> set objectPrototypeKeys"
  shows "\<exists>b'. foldE processSheet sheets b = Inr b'"
  using assms
proof (induction sheets arbitrary: b)
  case Nil
  then show ?case by simp
next
  case (Cons sh sheets)
  then obtain b1 where "processSheet b sh = Inr b1"
    using processSheet_returns [of sh b] by auto
  with Cons show ?case by simp
qed

lemma buildStudentsMap_returns:
  assumes "\<forall>sh\<in>set sheets. \<forall>row\<in>set (tl (rows sh)).
      trim (cell row rollIdx) \<notin> set objectPrototypeKeys"
  shows "\<exists>res. buildStudentsMap sheets = Inr res"
proof -
  obtain b where "foldE processSheet sheets \<lparr>map_obj = [], subjectLastColIndex = []\<rparr> = Inr b"
    using sheets_return [OF assms] by blast
  then show ?thesis by (simp add: buildStudentsMap_def)
qed

lemma inherited_roll_throws:
  "buildStudentsMap
     [\<lparr>subject = ''DBMS'',
       rows = [['''', ''Name'', ''Roll'', ''d1''], [''1'', ''Ann'', ''constructor'', ''P'']]\<rparr>]
   = Inl TypeError"
  by code_simp

subsection \<open>Consistency of the counters\<close>

lemma set_update_cases:
  "p \<in> set (AList.update k v al) \<Longrightarrow> p = (k, v) \<or> p \<in> set al"
  by (induction al) (auto split: if_splits)

lemma set_objSet_cases:
  "p \<in> set (objSet k v al) \<Longrightarrow> p = (k, v) \<or> p \<in> set al"
  using set_update_cases [of p k v al] by (simp add: objSet_def split: if_splits)

lemma length_fold_markCell:
  "length (snd (fold (markCell row) cs acc)) = length (snd acc) + length cs"
  by (induction cs arbitrary: acc) (auto simp: markCell_def Let_def)

lemma length_scanDates:
  "int (length (snd (scanDates header row))) = max 0 (int (length header) - int dateStart)"
  by (simp add: scanDates_def length_fold_markCell)

lemma addSubject_consistent:
  assumes "studentConsistent st" and "held = max 0 (int (length header) - int dateStart)"
  shows "studentConsistent (addSubject subj header held row st)"
proof -
  obtain p l where sd: "scanDates header row = (p, l)" by (cases "scanDates header row")
  with length_scanDates [of header row] assms(2) have len: "int (length l) = held" by simp
  show ?thesis
    using assms(1) len
    by (auto simp: studentConsistent_def addSubject_def sd Let_def recordConsistent_def
        dest!: set_objSet_cases)
qed

lemma lookupOrCreate_consistent:
  assumes "\<forall>(r, st)\<in>set m. studentConsistent st" and "lookupOrCreate m rl nm = Inr st"
  shows "studentConsistent st"
proof (cases "map_of m rl")
  case None
  with assms(2) have "st = newStudent nm rl"
    by (auto simp: lookupOrCreate_def split: if_splits)
  then show ?thesis by (simp add: newStudent_def studentConsistent_def)
next
  case (Some st0)
  then have "(rl, st0) \<in> set m" by (rule map_of_SomeD)
  with assms(1) have c: "studentConsistent st0" by auto
  from Some assms(2) have "st = st0\<lparr>name := nm\<rparr> \<or> st = st0"
    by (auto simp: lookupOrCreate_def split: if_splits)
  with c show ?thesis by (auto simp: studentConsistent_def)
qed

lemma processRow_consistent:
  assumes "\<forall>(r, st)\<in>set m. studentConsistent st"
    and "held = max 0 (int (length header) - int dateStart)"
    and "processRow subj header held m row = Inr m'"
  shows "\<forall>(r, st)\<in>set m'. studentConsistent st"
proof (cases "trim (cell row rollIdx) = []")
  case True
  with assms show ?thesis by (simp add: processRow_def)
next
  case False
  with assms(3) obtain st where
    st: "lookupOrCreate m (trim (cell row rollIdx)) (trim (cell row nameIdx)) = Inr st"
    and m': "m' = AList.update (trim (cell row rollIdx)) (addSubject subj header held row st) m"
    by (auto simp: processRow_def Let_def split: sum.splits)
  have "studentConsistent (addSubject subj header held row st)"
    using lookupOrCreate_consistent [OF assms(1) st] assms(2) by (rule addSubject_consistent)
  with assms(1) show ?thesis
    unfolding m' by (auto dest!: set_update_cases)
qed

lemma processSheet_consistent:
  assumes "\<forall>(r, st)\<in>set (map_obj b). studentConsistent st"
    and "processSheet b sh = Inr b'"
  shows "\<forall>(r, st)\<in>set (map_obj b'). studentConsistent st"
proof (cases "length (rows sh) < 1")
  case True
  with assms show ?thesis by (simp add: processSheet_def)
next
  case False
  let ?header = "hd (rows sh)"
  let ?held = "max 0 (int (length ?header) - int dateStart)"
  from False assms(2) obtain m' where
    run: "foldE (processRow (subject sh) ?header ?held) (tl (rows sh)) (map_obj b) = Inr m'"
    and b': "map_obj b' = m'"
    by (auto simp: processSheet_def Let_def split: sum.splits)
  have "\<forall>(r, st)\<in>set m'. studentConsistent st"
    by (rule foldE_invariant [where I = "\<lambda>m. \<forall>(r, st)\<in>set m. studentConsistent st", OF _ assms(1) run])
       (rule processRow_consistent [OF _ refl])
  with b' show ?thesis by simp
qed

lemma foldSheets_consistent:
  assumes "foldE processSheet sheets \<lparr>map_obj = [], subjectLastColIndex = []\<rparr> = Inr b"
  shows "\<forall>(r, st)\<in>set (map_obj b). studentConsistent st"
  by (rule foldE_invariant [where I = "\<lambda>b. \<forall>(r, st)\<in>set (map_obj b). studentConsistent st", OF _ _ assms])
     (use processSheet_consistent in \<open>blast, simp\<close>)

lemma finalize_entries:
  "(r, st) \<in> set (finalize m) \<Longrightarrow>
     \<exists>st0. (r, st0) \<in> set m \<and> st = st0\<lparr>totals := computeStatus (totals st0)\<rparr>"
  by (auto simp: finalize_def)

lemma buildStudentsMap_entries:
  assumes "buildStudentsMap sheets = Inr res" and "(r, st) \<in> set (map_obj res)"
  shows "\<exists>b st0. foldE processSheet sheets \<lparr>map_obj = [], subjectLastColIndex = []\<rparr> = Inr b \<and>
     (r, st0) \<in> set (map_obj b) \<and> st = st0\<lparr>totals := computeStatus (totals st0)\<rparr>"
  using assms
  by (auto simp: buildStudentsMap_def split: sum.splits dest!: finalize_entries)

text \<open>
  Claim C1. In a map that \<^verbatim>\<open>buildStudentsMap\<close> returns, every student has
  \<open>totals.present + totals.absent = totals.classesHeld\<close>, and every record of the
  student's subjects mapping has \<open>present + absent = classesHeld\<close> and as many entries
  in \<open>presentByDate\<close> as classes held, also when the row was shorter than the header.
\<close>

theorem buildStudentsMap_consistent:
  assumes "buildStudentsMap sheets = Inr res" and "(r, st) \<in> set (map_obj res)"
  shows "present (totals st) + absent (totals st) = classesHeld (totals st) \<and>
     (\<forall>(subj, s)\<in>set (subjects st).
        present s + absent s = classesHeld s \<and> int (length (presentByDate s)) = classesHeld s)"
proof -
  from buildStudentsMap_entries [OF assms] obtain b st0 where
    b: "foldE processSheet sheets \<lparr>map_obj = [], subjectLastColIndex = []\<rparr> = Inr b"
    and st0: "(r, st0) \<in> set (map_obj b)" and st: "st = st0\<lparr>totals := computeStatus (totals st0)\<rparr>"
    by blast
  from foldSheets_consistent [OF b] st0 have "studentConsistent st0" by auto
  then show ?thesis
    by (auto simp: st studentConsistent_def recordConsistent_def computeStatus_def Let_def)
qed

text \<open>A row with one date cell under a header with two.\<close>

theorem buildStudentsMap_consistent_witness:
  "buildStudentsMap
     [\<lparr>subject = ''DBMS'',
       rows = [['''', ''Name'', ''Roll'', ''d1'', ''d2''], ['''', ''Bob'', ''R1'', ''P'']]\<rparr>]
   = Inr \<lparr>map_obj =
        [(''R1'', \<lparr>name = ''Bob'', roll = ''R1'',
            subjects = [(''DBMS'', \<lparr>classesHeld = 2, present = 1, absent = 1,
                                     presentByDate = [1, 0]\<rparr>)],
            totals = \<lparr>classesHeld = 2, present = 1, absent = 1, percent = Some (1 / 2),
                      status = Some ''Needs Improvement''\<rparr>\<rparr>)],
        subjectLastColIndex = [(''DBMS'', 4)]\<rparr> \<and>
   recordConsistent \<lparr>classesHeld = 2, present = 1, absent = 1, presentByDate = [1, 0]\<rparr>"
proof -
  let ?sheets = "[\<lparr>subject = ''DBMS'',
       rows = [['''', ''Name'', ''Roll'', ''d1'', ''d2''], ['''', ''Bob'', ''R1'', ''P'']]\<rparr>]"
  let ?st = "\<lparr>name = ''Bob'', roll = ''R1'',
            subjects = [(''DBMS'', \<lparr>classesHeld = 2, present = 1, absent = 1,
                                     presentByDate = [1, 0]\<rparr>)],
            totals = \<lparr>classesHeld = 2, present = 1, absent = 1, percent = Some (1 / 2),
                      status = Some ''Needs Improvement''\<rparr>\<rparr>"
  let ?res = "\<lparr>map_obj = [(''R1'', ?st)], subjectLastColIndex = [(''DBMS'', 4)]\<rparr>"
  have run: "buildStudentsMap ?sheets = Inr ?res" by code_simp
  have mem: "(''R1'', ?st) \<in> set (map_obj ?res)" by simp
  from buildStudentsMap_consistent [OF run mem] run show ?thesis
    by (simp add: recordConsistent_def)
qed

text \<open>
  Claim C6. In a map that \<^verbatim>\<open>buildStudentsMap\<close> returns, every student's
  \<open>totals.percent\<close> is \<open>present / classesHeld\<close> when \<open>classesHeld > 0\<close> and 0
  otherwise, and \<open>totals.status\<close> is \<^verbatim>\<open>Good\<close> when the percent is at least 0.75,
  the boundary included, and \<^verbatim>\<open>Needs Improvement\<close> otherwise.
\<close>

theorem buildStudentsMap_percent_status:
  assumes "buildStudentsMap sheets = Inr res" and "(r, st) \<in> set (map_obj res)"
  shows "percent (totals st) =
      Some (if classesHeld (totals st) > 0
            then of_int (present (totals st)) / of_int (classesHeld (totals st)) else 0) \<and>
     status (totals st) =
      Some (if the (percent (totals st)) \<ge> 0.75 then ''Good'' else ''Needs Improvement'')"
proof -
  from buildStudentsMap_entries [OF assms] obtain st0 where
    "st = st0\<lparr>totals := computeStatus (totals st0)\<rparr>" by blast
  then show ?thesis by (simp add: computeStatus_def Let_def)
qed

text \<open>Three of four classes: the boundary.\<close>

theorem buildStudentsMap_percent_status_witness:
  "buildStudentsMap
     [\<lparr>subject = ''DAA'',
       rows = [['''', ''Name'', ''Roll'', ''d1'', ''d2'', ''d3'', ''d4''],
               [''1'', ''Ann'', ''R7'', ''P'', ''p'', ''A'', ''P'']]\<rparr>]
   = Inr \<lparr>map_obj =
        [(''R7'', \<lparr>name = ''Ann'', roll = ''R7'',
            subjects = [(''DAA'', \<lparr>classesHeld = 4, present = 3, absent = 1,
                                    presentByDate = [1, 1, 0, 1]\<rparr>)],
            totals = \<lparr>classesHeld = 4, present = 3, absent = 1, percent = Some (3 / 4),
                      status = Some ''Good''\<rparr>\<rparr>)],
        subjectLastColIndex = [(''DAA'', 6)]\<rparr> \<and>
   (3 / 4 :: rat) \<ge> 0.75"
proof -
  let ?sheets = "[\<lparr>subject = ''DAA'',
       rows = [['''', ''Name'', ''Roll'', ''d1'', ''d2'', ''d3'', ''d4''],
               [''1'', ''Ann'', ''R7'', ''P'', ''p'', ''A'', ''P'']]\<rparr>]"
  let ?st = "\<lparr>name = ''Ann'', roll = ''R7'',
            subjects = [(''DAA'', \<lparr>classesHeld = 4, present = 3, absent = 1,
                                    presentByDate = [1, 1, 0, 1]\<rparr>)],
            totals = \<lparr>classesHeld = 4, present = 3, absent = 1, percent = Some (3 / 4),
                      status = Some ''Good''\<rparr>\<rparr>"
  let ?res = "\<lparr>map_obj = [(''R7'', ?st)], subjectLastColIndex = [(''DAA'', 6)]\<rparr>"
  have run: "buildStudentsMap ?sheets = Inr ?res" by code_simp
  have mem: "(''R7'', ?st) \<in> set (map_obj ?res)" by simp
  from buildStudentsMap_percent_status [OF run mem] run show ?thesis
    by simp
qed

subsection \<open>Rows without roll\<close>

lemma processRow_no_roll:
  "trim (cell row rollIdx) = [] \<Longrightarrow> processRow subj header held m row = Inr m"
  by (simp add: processRow_def)

lemma foldE_skip:
  "(\<And>s. f s x = Inr s) \<Longrightarrow> foldE f (xs @ x # ys) s = foldE f (xs @ ys) s"
  by (simp add: foldE_append split: sum.splits)

lemma processSheet_skip_row:
  assumes "trim (cell row rollIdx) = []"
  shows "processSheet b \<lparr>subject = subj, rows = header # before @ row # after\<rparr>
       = processSheet b \<lparr>subject = subj, rows = header # before @ after\<rparr>"
  using assms by (simp add: processSheet_def Let_def foldE_skip processRow_no_roll)

text \<open>
  Claim C7. A data row whose trimmed roll is empty is skipped and raises nothing: the
  loop body returns the map as it was, and the builder's result on the sheets with the
  row (students, their subjects and totals, the column index, or the error of another
  row) is the result on the sheets without it.
\<close>

theorem empty_roll_row_skipped:
  assumes "trim (cell row rollIdx) = []"
  shows "processRow subj header held m row = Inr m \<and>
     buildStudentsMap (pre @ \<lparr>subject = subj, rows = header # before @ row # after\<rparr> # post)
       = buildStudentsMap (pre @ \<lparr>subject = subj, rows = header # before @ after\<rparr> # post)"
proof -
  have eq: "foldE processSheet (\<lparr>subject = subj, rows = header # before @ row # after\<rparr> # post) b
      = foldE processSheet (\<lparr>subject = subj, rows = header # before @ after\<rparr> # post) b" for b
    using assms by (simp add: processSheet_skip_row)
  have "foldE processSheet (pre @ \<lparr>subject = subj, rows = header # before @ row # after\<rparr> # post) b
      = foldE processSheet (pre @ \<lparr>subject = subj, rows = header # before @ after\<rparr> # post) b" for b
    unfolding foldE_append eq ..
  then show ?thesis
    using assms by (simp add: buildStudentsMap_def processRow_no_roll)
qed


theorem empty_roll_row_skipped_witness:
  "trim (cell [''2'', ''Ghost'', ''  ''] rollIdx) = [] \<and>
   processRow ''DAA'' ['''', ''Name'', ''Roll'', ''d1''] 1 [] [''2'', ''Ghost'', ''  ''] = Inr [] \<and>
   buildStudentsMap
     [\<lparr>subject = ''DAA'',
       rows = [['''', ''Name'', ''Roll'', ''d1''], [''1'', ''Ann'', ''R7'', ''P''],
               [''2'', ''Ghost'', ''  ''], [''3'', ''Bob'', ''R8'', ''A'']]\<rparr>]
   = buildStudentsMap
     [\<lparr>subject = ''DAA'',
       rows = [['''', ''Name'', ''Roll'', ''d1''], [''1'', ''Ann'', ''R7'', ''P''],
               [''3'', ''Bob'', ''R8'', ''A'']]\<rparr>]"
proof -
  have h: "trim (cell [''2'', ''Ghost'', ''  ''] rollIdx) = []"
    by (simp add: trim_def cell_def rollIdx_def isWhiteSpace_def)
  from empty_roll_row_skipped [OF h, of "''DAA''" "['''', ''Name'', ''Roll'', ''d1'']" 1 "[]"
      "[]" "[[''1'', ''Ann'', ''R7'', ''P'']]" "[[''3'', ''Bob'', ''R8'', ''A'']]" "[]"] h
  show ?thesis by simp
qed

subsection \<open>Totals and the subjects mapping\<close>

lemma update_fresh: "k \<notin> fst ` set al \<Longrightarrow> AList.update k v al = al @ [(k, v)]"
  by (induction al) auto

lemma sumsInv_mono: "sumsInv seen m \<Longrightarrow> set seen \<subseteq> set seen' \<Longrightarrow> sumsInv seen' m"
  unfolding sumsInv_def by fast

lemma addSubject_sums:
  assumes sums: "totalsAreSums st" and fresh: "subj \<notin> fst ` set (subjects st)"
    and ord: "subj \<noteq> ''__proto__''"
  shows "totalsAreSums (addSubject subj header held row st) \<and>
     fst ` set (subjects (addSubject subj header held row st)) = insert subj (fst ` set (subjects st))"
proof -
  obtain p l where sd: "scanDates header row = (p, l)" by (cases "scanDates header row")
  show ?thesis
    using sums
    by (simp add: addSubject_def sd Let_def objSet_def ord update_fresh [OF fresh]
        totalsAreSums_def sumOver_def)
qed

lemma lookupOrCreate_sums:
  assumes "sumsInv seen m" and "lookupOrCreate m rl nm = Inr st"
  shows "totalsAreSums st \<and> (\<forall>k\<in>fst ` set (subjects st). (k, rl) \<in> set seen)"
proof (cases "map_of m rl")
  case None
  with assms(2) have "st = newStudent nm rl"
    by (auto simp: lookupOrCreate_def split: if_splits)
  then show ?thesis by (simp add: newStudent_def totalsAreSums_def sumOver_def)
next
  case (Some st0)
  then have "(rl, st0) \<in> set m" by (rule map_of_SomeD)
  with assms(1) have c: "totalsAreSums st0 \<and> (\<forall>k\<in>fst ` set (subjects st0). (k, rl) \<in> set seen)"
    unfolding sumsInv_def by fast
  from Some assms(2) have "st = st0\<lparr>name := nm\<rparr> \<or> st = st0"
    by (auto simp: lookupOrCreate_def split: if_splits)
  with c show ?thesis by (auto simp: totalsAreSums_def sumOver_def)
qed

lemma processRow_sums:
  assumes inv: "sumsInv seen m"
    and run: "processRow subj header held m row = Inr m'"
    and rl: "trim (cell row rollIdx) \<noteq> []"
    and fresh: "(subj, trim (cell row rollIdx)) \<notin> set seen"
    and ord: "subj \<noteq> ''__proto__''"
  shows "sumsInv (seen @ [(subj, trim (cell row rollIdx))]) m'"
proof -
  let ?rl = "trim (cell row rollIdx)"
  from run rl obtain st where
    st: "lookupOrCreate m ?rl (trim (cell row nameIdx)) = Inr st"
    and m': "m' = AList.update ?rl (addSubject subj header held row st) m"
    by (auto simp: processRow_def Let_def split: sum.splits)
  from lookupOrCreate_sums [OF inv st]
  have sums: "totalsAreSums st" and cov: "\<forall>k\<in>fst ` set (subjects st). (k, ?rl) \<in> set seen"
    by simp_all
  from cov fresh have "subj \<notin> fst ` set (subjects st)" by blast
  from addSubject_sums [OF sums this ord, of header held row]
  have new: "totalsAreSums (addSubject subj header held row st)"
    and keys: "fst ` set (subjects (addSubject subj header held row st))
       = insert subj (fst ` set (subjects st))"
    by simp_all
  have old: "sumsInv (seen @ [(subj, ?rl)]) m"
    using inv by (rule sumsInv_mono) auto
  show ?thesis
    unfolding sumsInv_def
  proof (intro ballI, clarify)
    fix r s
    assume "(r, s) \<in> set m'"
    then consider "r = ?rl" "s = addSubject subj header held row st" | "(r, s) \<in> set m"
      unfolding m' by (auto dest!: set_update_cases)
    then show "totalsAreSums s \<and>
        (\<forall>k\<in>fst ` set (subjects s). (k, r) \<in> set (seen @ [(subj, ?rl)]))"
    proof cases
      case 1
      with new keys cov show ?thesis by auto
    next
      case 2
      with old show ?thesis unfolding sumsInv_def by fast
    qed
  qed
qed

lemma rows_sums:
  assumes "sumsInv seen m"
    and "foldE (processRow subj header held) rs m = Inr m'"
    and "distinct (seen @ keysOfRows subj rs)"
    and "subj \<noteq> ''__proto__''"
  shows "sumsInv (seen @ keysOfRows subj rs) m'"
  using assms
proof (induction rs arbitrary: seen m)
  case Nil
  then show ?case by (simp add: keysOfRows_def)
next
  case (Cons row rs)
  from Cons.prems(2) obtain m1 where
    m1: "processRow subj header held m row = Inr m1"
    and rest: "foldE (processRow subj header held) rs m1 = Inr m'"
    by (auto split: sum.splits)
  show ?case
  proof (cases "trim (cell row rollIdx) = []")
    case True
    with m1 have "m1 = m" by (simp add: processRow_def)
    with Cons.IH [of seen m] Cons.prems rest True show ?thesis
      by (simp add: keysOfRows_def)
  next
    case False
    let ?k = "(subj, trim (cell row rollIdx))"
    have keys: "keysOfRows subj (row # rs) = ?k # keysOfRows subj rs"
      using False by (simp add: keysOfRows_def)
    from Cons.prems(3) have fresh: "?k \<notin> set seen"
      and dist: "distinct ((seen @ [?k]) @ keysOfRows subj rs)"
      unfolding keys by auto
    have "sumsInv (seen @ [?k]) m1"
      by (rule processRow_sums [OF Cons.prems(1) m1 False fresh Cons.prems(4)])
    from Cons.IH [OF this rest dist Cons.prems(4)] show ?thesis
      unfolding keys by simp
  qed
qed

lemma processSheet_sums:
  assumes "sumsInv seen (map_obj b)"
    and "processSheet b sh = Inr b'"
    and "distinct (seen @ rowKeys sh)"
    and "subject sh \<noteq> ''__proto__''"
  shows "sumsInv (seen @ rowKeys sh) (map_obj b')"
proof (cases "length (rows sh) < 1")
  case True
  then have "rowKeys sh = []" by (simp add: rowKeys_def keysOfRows_def)
  with True assms show ?thesis by (simp add: processSheet_def)
next
  case False
  let ?header = "hd (rows sh)"
  let ?held = "max 0 (int (length ?header) - int dateStart)"
  from False assms(2) obtain m' where
    run: "foldE (processRow (subject sh) ?header ?held) (tl (rows sh)) (map_obj b) = Inr m'"
    and b': "map_obj b' = m'"
    by (auto simp: processSheet_def Let_def split: sum.splits)
  from rows_sums [OF assms(1) run] assms(3,4) show ?thesis
    by (simp add: rowKeys_def b')
qed

lemma sheets_sums:
  assumes "sumsInv seen (map_obj b)"
    and "foldE processSheet sheets b = Inr b'"
    and "distinct (seen @ processedKeys sheets)"
    and "\<forall>sh\<in>set sheets. subject sh \<noteq> ''__proto__''"
  shows "sumsInv (seen @ processedKeys sheets) (map_obj b')"
  using assms
proof (induction sheets arbitrary: seen b)
  case Nil
  then show ?case by (simp add: processedKeys_def)
next
  case (Cons sh sheets)
  from Cons.prems(2) obtain b1 where
    b1: "processSheet b sh = Inr b1" and rest: "foldE processSheet sheets b1 = Inr b'"
    by (auto split: sum.splits)
  have keys: "processedKeys (sh # sheets) = rowKeys sh @ processedKeys sheets"
    by (simp add: processedKeys_def)
  from Cons.prems(3) have d1: "distinct (seen @ rowKeys sh)"
    and d2: "distinct ((seen @ rowKeys sh) @ processedKeys sheets)"
    unfolding keys by auto
  from Cons.prems(4) have o1: "subject sh \<noteq> ''__proto__''"
    and o2: "\<forall>sh\<in>set sheets. subject sh \<noteq> ''__proto__''" by auto
  have "sumsInv (seen @ rowKeys sh) (map_obj b1)"
    by (rule processSheet_sums [OF Cons.prems(1) b1 d1 o1])
  from Cons.IH [OF this rest d2 o2] show ?case unfolding keys by simp
qed

text \<open>
  Claim C2, as amended. When no two processed data rows have the same subject and the
  same roll (no sheet repeats a roll, no two sheets of one subject share a roll), and no
  subject is the property name \<^verbatim>\<open>__proto__\<close>, then for every student of the map that
  \<^verbatim>\<open>buildStudentsMap\<close> returns, each of \<open>totals.classesHeld\<close>, \<open>totals.present\<close>
  and \<open>totals.absent\<close> is the sum of that field over the records of the student's
  subjects mapping.
\<close>

theorem totals_are_sums_without_repeated_rows:
  assumes run: "buildStudentsMap sheets = Inr res" and mem: "(r, st) \<in> set (map_obj res)"
    and dist: "distinct (processedKeys sheets)"
    and ord: "\<forall>sh\<in>set sheets. subject sh \<noteq> ''__proto__''"
  shows "classesHeld (totals st) = sumOver classesHeld st \<and>
     present (totals st) = sumOver present st \<and>
     absent (totals st) = sumOver absent st"
proof -
  from buildStudentsMap_entries [OF run mem] obtain b st0 where
    b: "foldE processSheet sheets \<lparr>map_obj = [], subjectLastColIndex = []\<rparr> = Inr b"
    and st0: "(r, st0) \<in> set (map_obj b)" and st: "st = st0\<lparr>totals := computeStatus (totals st0)\<rparr>"
    by blast
  have "sumsInv [] (map_obj \<lparr>map_obj = [], subjectLastColIndex = []\<rparr>)"
    by (simp add: sumsInv_def)
  from sheets_sums [OF this b] dist ord have "sumsInv (processedKeys sheets) (map_obj b)" by simp
  with st0 have "totalsAreSums st0" unfolding sumsInv_def by fast
  then show ?thesis
    by (simp add: st totalsAreSums_def sumOver_def computeStatus_def Let_def)
qed


theorem totals_are_sums_without_repeated_rows_witness:
  "buildStudentsMap
     [\<lparr>subject = ''DBMS'',
       rows = [['''', ''Name'', ''Roll'', ''d1'', ''d2''], [''1'', ''Ann'', ''R1'', ''P'', ''A'']]\<rparr>,
      \<lparr>subject = ''DAA'',
       rows = [['''', ''Name'', ''Roll'', ''d1''], [''1'', ''Ann'', ''R1'', ''p'']]\<rparr>]
   = Inr \<lparr>map_obj =
        [(''R1'', \<lparr>name = ''Ann'', roll = ''R1'',
            subjects = [(''DBMS'', \<lparr>classesHeld = 2, present = 1, absent = 1,
                                     presentByDate = [1, 0]\<rparr>),
                        (''DAA'', \<lparr>classesHeld = 1, present = 1, absent = 0,
                                    presentByDate = [1]\<rparr>)],
            totals = \<lparr>classesHeld = 3, present = 2, absent = 1, percent = Some (2 / 3),
                      status = Some ''Needs Improvement''\<rparr>\<rparr>)],
        subjectLastColIndex = [(''DBMS'', 4), (''DAA'', 3)]\<rparr> \<and>
   processedKeys
     [\<lparr>subject = ''DBMS'',
       rows = [['''', ''Name'', ''Roll'', ''d1'', ''d2''], [''1'', ''Ann'', ''R1'', ''P'', ''A'']]\<rparr>,
      \<lparr>subject = ''DAA'',
       rows = [['''', ''Name'', ''Roll'', ''d1''], [''1'', ''Ann'', ''R1'', ''p'']]\<rparr>]
   = [(''DBMS'', ''R1''), (''DAA'', ''R1'')] \<and>
   sumOver classesHeld
     \<lparr>name = ''Ann'', roll = ''R1'',
      subjects = [(''DBMS'', \<lparr>classesHeld = 2, present = 1, absent = 1, presentByDate = [1, 0]\<rparr>),
                  (''DAA'', \<lparr>classesHeld = 1, present = 1, absent = 0, presentByDate = [1]\<rparr>)],
      totals = \<lparr>classesHeld = 3, present = 2, absent = 1, percent = Some (2 / 3),
                status = Some ''Needs Improvement''\<rparr>\<rparr> = 3"
proof -
  let ?sheets = "[\<lparr>subject = ''DBMS'',
       rows = [['''', ''Name'', ''Roll'', ''d1'', ''d2''], [''1'', ''Ann'', ''R1'', ''P'', ''A'']]\<rparr>,
      \<lparr>subject = ''DAA'',
       rows = [['''', ''Name'', ''Roll'', ''d1''], [''1'', ''Ann'', ''R1'', ''p'']]\<rparr>]"
  let ?st = "\<lparr>name = ''Ann'', roll = ''R1'',
      subjects = [(''DBMS'', \<lparr>classesHeld = 2, present = 1, absent = 1, presentByDate = [1, 0]\<rparr>),
                  (''DAA'', \<lparr>classesHeld = 1, present = 1, absent = 0, presentByDate = [1]\<rparr>)],
      totals = \<lparr>classesHeld = 3, present = 2, absent = 1, percent = Some (2 / 3),
                status = Some ''Needs Improvement''\<rparr>\<rparr>"
  let ?res = "\<lparr>map_obj = [(''R1'', ?st)], subjectLastColIndex = [(''DBMS'', 4), (''DAA'', 3)]\<rparr>"
  have run: "buildStudentsMap ?sheets = Inr ?res" by code_simp
  have mem: "(''R1'', ?st) \<in> set (map_obj ?res)" by simp
  have keys: "processedKeys ?sheets = [(''DBMS'', ''R1''), (''DAA'', ''R1'')]" by code_simp
  have dist: "distinct (processedKeys ?sheets)" unfolding keys by simp
  have ord: "\<forall>sh\<in>set ?sheets. subject sh \<noteq> ''__proto__''" by simp
  from totals_are_sums_without_repeated_rows [OF run mem dist ord] run keys
  show ?thesis by simp
qed

text \<open>Claim C2 as stated fails. A sheet with two data rows of roll \<^verbatim>\<open>R1\<close> adds both
  rows to the totals and keeps the record of the second row only: the total of classes
  held is 2, the sum over the subjects mapping is 1. And a record assigned to the property
  \<^verbatim>\<open>__proto__\<close> is added to the totals without becoming an entry of the mapping.\<close>

theorem repeated_row_counted_twice:
  "buildStudentsMap
     [\<lparr>subject = ''DBMS'',
       rows = [['''', ''Name'', ''Roll'', ''d1''], [''1'', ''Ann'', ''R1'', ''P''],
               [''1'', ''Ann'', ''R1'', ''A'']]\<rparr>]
   = Inr \<lparr>map_obj =
        [(''R1'', \<lparr>name = ''Ann'', roll = ''R1'',
            subjects = [(''DBMS'', \<lparr>classesHeld = 1, present = 0, absent = 1,
                                     presentByDate = [0]\<rparr>)],
            totals = \<lparr>classesHeld = 2, present = 1, absent = 1, percent = Some (1 / 2),
                      status = Some ''Needs Improvement''\<rparr>\<rparr>)],
        subjectLastColIndex = [(''DBMS'', 3)]\<rparr> \<and>
   sumOver classesHeld
     \<lparr>name = ''Ann'', roll = ''R1'',
      subjects = [(''DBMS'', \<lparr>classesHeld = 1, present = 0, absent = 1, presentByDate = [0]\<rparr>)],
      totals = \<lparr>classesHeld = 2, present = 1, absent = 1, percent = Some (1 / 2),
                status = Some ''Needs Improvement''\<rparr>\<rparr> = 1 \<and>
   buildStudentsMap
     [\<lparr>subject = ''__proto__'',
       rows = [['''', ''Name'', ''Roll'', ''d1''], [''1'', ''Ann'', ''R1'', ''P'']]\<rparr>]
   = Inr \<lparr>map_obj =
        [(''R1'', \<lparr>name = ''Ann'', roll = ''R1'', subjects = [],
            totals = \<lparr>classesHeld = 1, present = 1, absent = 0, percent = Some 1,
                      status = Some ''Good''\<rparr>\<rparr>)],
        subjectLastColIndex = []\<rparr>"
  by code_simp

subsection \<open>The name of a student\<close>

text \<open>
  Claim C3, at the input where the code departs from it. The sheet of the first subject
  has the roll \<^verbatim>\<open>R1\<close> without a name, the sheet of the second subject has it with
  the name \<^verbatim>\<open>Alice\<close>. The first row stores the default \<^verbatim>\<open>Unknown\<close>, which is
  not empty, so that the test of line 106 fails on the second row: the student keeps the
  name \<^verbatim>\<open>Unknown\<close>.
\<close>

theorem later_name_does_not_replace_default:
  "buildStudentsMap
     [\<lparr>subject = ''DBMS'', rows = [['''', ''Name'', ''Roll''], [''1'', '''', ''R1'']]\<rparr>,
      \<lparr>subject = ''DAA'', rows = [['''', ''Name'', ''Roll''], [''1'', ''Alice'', ''R1'']]\<rparr>]
   = Inr \<lparr>map_obj =
        [(''R1'', \<lparr>name = ''Unknown'', roll = ''R1'',
            subjects = [(''DBMS'', \<lparr>classesHeld = 0, present = 0, absent = 0,
                                     presentByDate = []\<rparr>),
                        (''DAA'', \<lparr>classesHeld = 0, present = 0, absent = 0,
                                    presentByDate = []\<rparr>)],
            totals = \<lparr>classesHeld = 0, present = 0, absent = 0, percent = Some 0,
                      status = Some ''Needs Improvement''\<rparr>\<rparr>)],
        subjectLastColIndex = [(''DBMS'', 2), (''DAA'', 2)]\<rparr>"
  by code_simp

section \<open>The today detector\<close>

lemma last_entry:
  "l \<noteq> [] \<Longrightarrow> l ! nat (int (length l) - 1) = last l"
  by (simp add: last_conv_nth nat_diff_distrib')

text \<open>The flags after the loop over the subjects: the \<^verbatim>\<open>break\<close> changes neither.\<close>

lemma scanSubjects_flags:
  "snd (scanSubjects subs (h, p, d)) =
     (p \<or> list_ex (\<lambda>(subj, s). lastIsOne s) subs,
      d \<or> list_ex (\<lambda>(subj, s). presentByDate s \<noteq> []) subs)"
proof (induction subs arbitrary: h p d)
  case Nil
  then show ?case by simp
next
  case (Cons a subs)
  obtain subj s where a: "a = (subj, s)" by (cases a)
  show ?case
  proof (cases "presentByDate s = []")
    case True
    then show ?thesis using Cons.IH [of h p d] by (simp add: a lastIsOne_def)
  next
    case False
    then show ?thesis
      using Cons.IH [of True p True] last_entry [OF False]
      by (simp add: a lastIsOne_def Let_def)
  qed
qed

lemma unknown_iff_no_date:
  "unknownToday st = (\<not> list_ex (\<lambda>(subj, s). presentByDate s \<noteq> []) (subjects st))"
  by (auto simp: unknownToday_def list_all_iff list_ex_iff)

lemma present_has_date:
  "presentToday st \<Longrightarrow> list_ex (\<lambda>(subj, s). presentByDate s \<noteq> []) (subjects st)"
  by (auto simp: presentToday_def lastIsOne_def list_ex_iff)

lemma today_classes_exclusive:
  "(presentToday st \<and> \<not> absentToday st \<and> \<not> unknownToday st) \<or>
   (\<not> presentToday st \<and> absentToday st \<and> \<not> unknownToday st) \<or>
   (\<not> presentToday st \<and> \<not> absentToday st \<and> unknownToday st)"
  using present_has_date [of st] by (auto simp: absentToday_def unknown_iff_no_date)

lemma countStudent_class:
  "countStudent st c =
     (if unknownToday st then c\<lparr>unknown := unknown c + 1\<rparr>
      else if presentToday st then c\<lparr>today_counts.present := today_counts.present c + 1\<rparr>
      else c\<lparr>today_counts.absent := today_counts.absent c + 1\<rparr>)"
proof -
  obtain h p d where r: "scanSubjects (subjects st) (False, False, False) = (h, p, d)"
    by (cases "scanSubjects (subjects st) (False, False, False)")
  with scanSubjects_flags [of "subjects st" False False False]
  have "p = presentToday st" and "d = (\<not> unknownToday st)"
    by (simp_all add: presentToday_def unknown_iff_no_date)
  then show ?thesis by (simp add: countStudent_def r)
qed

lemma fold_countStudent:
  "fold countStudent sts c =
     \<lparr>today_counts.present = today_counts.present c + int (length (filter presentToday sts)),
      today_counts.absent = today_counts.absent c + int (length (filter absentToday sts)),
      unknown = unknown c + int (length (filter unknownToday sts))\<rparr>"
proof (induction sts arbitrary: c)
  case Nil
  then show ?case by simp
next
  case (Cons st sts)
  have "fold countStudent (st # sts) c = fold countStudent sts (countStudent st c)" by simp
  also note Cons.IH
  finally have step: "fold countStudent (st # sts) c =
     \<lparr>today_counts.present =
        today_counts.present (countStudent st c) + int (length (filter presentToday sts)),
      today_counts.absent =
        today_counts.absent (countStudent st c) + int (length (filter absentToday sts)),
      unknown = unknown (countStudent st c) + int (length (filter unknownToday sts))\<rparr>" .
  show ?case
    unfolding step using today_classes_exclusive [of st]
    by (auto simp: countStudent_class)
qed

text \<open>
  Claim C5. \<^verbatim>\<open>computeTodayCounts\<close> counts as present the students with a subject record
  whose \<open>presentByDate\<close> is not empty and ends in 1; as absent those with no such record
  and with a record whose \<open>presentByDate\<close> is not empty; as unknown those whose records
  all have an empty \<open>presentByDate\<close>, among them the students without subjects. Every
  student is in exactly one of the three classes.
\<close>

theorem computeTodayCounts_classes:
  "computeTodayCounts m idx =
     \<lparr>today_counts.present = countWhere presentToday m,
      today_counts.absent = countWhere absentToday m,
      unknown = countWhere unknownToday m\<rparr> \<and>
   ((presentToday st \<and> \<not> absentToday st \<and> \<not> unknownToday st) \<or>
    (\<not> presentToday st \<and> absentToday st \<and> \<not> unknownToday st) \<or>
    (\<not> presentToday st \<and> \<not> absentToday st \<and> unknownToday st))"
  using today_classes_exclusive [of st]
  by (simp add: computeTodayCounts_def fold_countStudent countWhere_def)

text \<open>
  Claim C10. The three counts of \<^verbatim>\<open>computeTodayCounts\<close> add up to the number of
  students of the map, and each student contributes to exactly one of the three
  counters: the counts of the empty map are zero, and a student added anywhere to a map
  raises one counter by one and leaves the other two as they are.
\<close>

theorem computeTodayCounts_partition:
  "today_counts.present (computeTodayCounts m idx) + today_counts.absent (computeTodayCounts m idx)
     + unknown (computeTodayCounts m idx) = int (length m) \<and>
   computeTodayCounts [] idx = \<lparr>today_counts.present = 0, today_counts.absent = 0, unknown = 0\<rparr> \<and>
   (today_counts.present (computeTodayCounts (m1 @ (r, st) # m2) idx)
      - today_counts.present (computeTodayCounts (m1 @ m2) idx),
    today_counts.absent (computeTodayCounts (m1 @ (r, st) # m2) idx)
      - today_counts.absent (computeTodayCounts (m1 @ m2) idx),
    unknown (computeTodayCounts (m1 @ (r, st) # m2) idx)
      - unknown (computeTodayCounts (m1 @ m2) idx))
     \<in> {(1, 0, 0), (0, 1, 0), (0, 0, 1)}"
proof -
  have "int (length (filter presentToday sts)) + int (length (filter absentToday sts))
      + int (length (filter unknownToday sts)) = int (length sts)" for sts
  proof (induction sts)
    case Nil
    then show ?case by simp
  next
    case (Cons st sts)
    with today_classes_exclusive [of st] show ?case by auto
  qed
  from this [of "map snd m"]
  have total: "today_counts.present (computeTodayCounts m idx)
     + today_counts.absent (computeTodayCounts m idx)
     + unknown (computeTodayCounts m idx) = int (length m)"
    by (simp add: computeTodayCounts_def fold_countStudent)
  have start: "computeTodayCounts [] idx
      = \<lparr>today_counts.present = 0, today_counts.absent = 0, unknown = 0\<rparr>"
    by (simp add: computeTodayCounts_def)
  have counts: "computeTodayCounts mm idx =
     \<lparr>today_counts.present = int (length (filter presentToday (map snd mm))),
      today_counts.absent = int (length (filter absentToday (map snd mm))),
      unknown = int (length (filter unknownToday (map snd mm)))\<rparr>" for mm
    unfolding computeTodayCounts_def fold_countStudent by simp
  have one: "(today_counts.present (computeTodayCounts (m1 @ (r, st) # m2) idx)
      - today_counts.present (computeTodayCounts (m1 @ m2) idx),
    today_counts.absent (computeTodayCounts (m1 @ (r, st) # m2) idx)
      - today_counts.absent (computeTodayCounts (m1 @ m2) idx),
    unknown (computeTodayCounts (m1 @ (r, st) # m2) idx)
      - unknown (computeTodayCounts (m1 @ m2) idx))
     \<in> {(1, 0, 0), (0, 1, 0), (0, 0, 1)}"
    unfolding counts using today_classes_exclusive [of st] by auto
  from total start one show ?thesis by blast
qed

text \<open>One student present in one of two subjects, one absent in both, one without date
  column, one without subjects.\<close>

theorem computeTodayCounts_classes_witness:
  "computeTodayCounts
     [(''R1'', \<lparr>name = ''Ann'', roll = ''R1'',
         subjects = [(''A'', \<lparr>classesHeld = 2, present = 1, absent = 1, presentByDate = [0, 1]\<rparr>),
                     (''B'', \<lparr>classesHeld = 1, present = 0, absent = 1, presentByDate = [0]\<rparr>)],
         totals = \<lparr>classesHeld = 3, present = 1, absent = 2, percent = None, status = None\<rparr>\<rparr>),
      (''R2'', \<lparr>name = ''Bob'', roll = ''R2'',
         subjects = [(''A'', \<lparr>classesHeld = 2, present = 1, absent = 1, presentByDate = [1, 0]\<rparr>),
                     (''B'', \<lparr>classesHeld = 1, present = 0, absent = 1, presentByDate = [0]\<rparr>)],
         totals = \<lparr>classesHeld = 3, present = 1, absent = 2, percent = None, status = None\<rparr>\<rparr>),
      (''R3'', \<lparr>name = ''Cy'', roll = ''R3'',
         subjects = [(''C'', \<lparr>classesHeld = 0, present = 0, absent = 0, presentByDate = []\<rparr>)],
         totals = \<lparr>classesHeld = 0, present = 0, absent = 0, percent = None, status = None\<rparr>\<rparr>),
      (''R4'', \<lparr>name = ''Di'', roll = ''R4'', subjects = [],
         totals = \<lparr>classesHeld = 0, present = 0, absent = 0, percent = None, status = None\<rparr>\<rparr>)]
     []
   = \<lparr>today_counts.present = 1, today_counts.absent = 1, unknown = 2\<rparr> \<and>
   absentToday \<lparr>name = ''Bob'', roll = ''R2'',
         subjects = [(''A'', \<lparr>classesHeld = 2, present = 1, absent = 1, presentByDate = [1, 0]\<rparr>),
                     (''B'', \<lparr>classesHeld = 1, present = 0, absent = 1, presentByDate = [0]\<rparr>)],
         totals = \<lparr>classesHeld = 3, present = 1, absent = 2, percent = None, status = None\<rparr>\<rparr>"
  using computeTodayCounts_classes
    [of "[(''R1'', \<lparr>name = ''Ann'', roll = ''R1'',
         subjects = [(''A'', \<lparr>classesHeld = 2, present = 1, absent = 1, presentByDate = [0, 1]\<rparr>),
                     (''B'', \<lparr>classesHeld = 1, present = 0, absent = 1, presentByDate = [0]\<rparr>)],
         totals = \<lparr>classesHeld = 3, present = 1, absent = 2, percent = None, status = None\<rparr>\<rparr>),
      (''R2'', \<lparr>name = ''Bob'', roll = ''R2'',
         subjects = [(''A'', \<lparr>classesHeld = 2, present = 1, absent = 1, presentByDate = [1, 0]\<rparr>),
                     (''B'', \<lparr>classesHeld = 1, present = 0, absent = 1, presentByDate = [0]\<rparr>)],
         totals = \<lparr>classesHeld = 3, present = 1, absent = 2, percent = None, status = None\<rparr>\<rparr>),
      (''R3'', \<lparr>name = ''Cy'', roll = ''R3'',
         subjects = [(''C'', \<lparr>classesHeld = 0, present = 0, absent = 0, presentByDate = []\<rparr>)],
         totals = \<lparr>classesHeld = 0, present = 0, absent = 0, percent = None, status = None\<rparr>\<rparr>),
      (''R4'', \<lparr>name = ''Di'', roll = ''R4'', subjects = [],
         totals = \<lparr>classesHeld = 0, present = 0, absent = 0, percent = None, status = None\<rparr>\<rparr>)]"
     "[]"
     "\<lparr>name = ''Bob'', roll = ''R2'',
         subjects = [(''A'', \<lparr>classesHeld = 2, present = 1, absent = 1, presentByDate = [1, 0]\<rparr>),
                     (''B'', \<lparr>classesHeld = 1, present = 0, absent = 1, presentByDate = [0]\<rparr>)],
         totals = \<lparr>classesHeld = 3, present = 1, absent = 2, percent = None, status = None\<rparr>\<rparr>"]
  by (simp add: countWhere_def presentToday_def absentToday_def unknownToday_def lastIsOne_def)

text \<open>A map of two students; the first is the student added to the map of the second.\<close>

theorem computeTodayCounts_partition_witness:
  "today_counts.present (computeTodayCounts
      [(''R1'', \<lparr>name = ''Ann'', roll = ''R1'',
          subjects = [(''A'', \<lparr>classesHeld = 1, present = 1, absent = 0, presentByDate = [1]\<rparr>)],
          totals = \<lparr>classesHeld = 1, present = 1, absent = 0, percent = None, status = None\<rparr>\<rparr>),
       (''R2'', \<lparr>name = ''Bob'', roll = ''R2'', subjects = [],
          totals = \<lparr>classesHeld = 0, present = 0, absent = 0, percent = None, status = None\<rparr>\<rparr>)]
      []) = 1 \<and>
   unknown (computeTodayCounts
      [(''R1'', \<lparr>name = ''Ann'', roll = ''R1'',
          subjects = [(''A'', \<lparr>classesHeld = 1, present = 1, absent = 0, presentByDate = [1]\<rparr>)],
          totals = \<lparr>classesHeld = 1, present = 1, absent = 0, percent = None, status = None\<rparr>\<rparr>),
       (''R2'', \<lparr>name = ''Bob'', roll = ''R2'', subjects = [],
          totals = \<lparr>classesHeld = 0, present = 0, absent = 0, percent = None, status = None\<rparr>\<rparr>)]
      []) = 1 \<and>
   today_counts.absent (computeTodayCounts
      [(''R1'', \<lparr>name = ''Ann'', roll = ''R1'',
          subjects = [(''A'', \<lparr>classesHeld = 1, present = 1, absent = 0, presentByDate = [1]\<rparr>)],
          totals = \<lparr>classesHeld = 1, present = 1, absent = 0, percent = None, status = None\<rparr>\<rparr>),
       (''R2'', \<lparr>name = ''Bob'', roll = ''R2'', subjects = [],
          totals = \<lparr>classesHeld = 0, present = 0, absent = 0, percent = None, status = None\<rparr>\<rparr>)]
      []) = 0 \<and>
   computeTodayCounts
      [(''R2'', \<lparr>name = ''Bob'', roll = ''R2'', subjects = [],
          totals = \<lparr>classesHeld = 0, present = 0, absent = 0, percent = None, status = None\<rparr>\<rparr>)]
      [] = \<lparr>today_counts.present = 0, today_counts.absent = 0, unknown = 1\<rparr>"
proof -
  let ?ann = "\<lparr>name = ''Ann'', roll = ''R1'',
          subjects = [(''A'', \<lparr>classesHeld = 1, present = 1, absent = 0, presentByDate = [1]\<rparr>)],
          totals = \<lparr>classesHeld = 1, present = 1, absent = 0, percent = None, status = None\<rparr>\<rparr>"
  let ?bob = "(''R2'', \<lparr>name = ''Bob'', roll = ''R2'', subjects = [],
          totals = \<lparr>classesHeld = 0, present = 0, absent = 0, percent = None, status = None\<rparr>\<rparr>)"
  let ?m = "[(''R1'', ?ann), ?bob]"
  have p: "today_counts.present (computeTodayCounts ?m []) = 1"
    and u: "unknown (computeTodayCounts ?m []) = 1"
    and b: "computeTodayCounts [?bob] []
       = \<lparr>today_counts.present = 0, today_counts.absent = 0, unknown = 1\<rparr>"
    by (simp_all add: computeTodayCounts_def countStudent_def)
  from computeTodayCounts_partition [of ?m "[]" "[]" "''R1''" ?ann "[?bob]"] p u b
  show ?thesis by simp
qed

end
